theory Spec2Isabelle
  imports Complex_Main "HOL-Library.Sublist"
begin

section \<open>Bookii: the library view and the PDF reader\<close>

text \<open>
  A shallow embedding of \<^verbatim>\<open>src/App.tsx\<close> (the library view), \<^verbatim>\<open>src/PdfReader.tsx\<close>
  (the reader) and the book card of \<^verbatim>\<open>src/unnamed/part_000\<close>. React state is a record,
  an event handler is a function from the state before to the state after, and every
  value the handlers obtain from outside (the services, the clock, the random source, the
  outcome of a promise) is an explicit argument.
\<close>

subsection \<open>JavaScript strings\<close>

text \<open>
  A JavaScript string is a sequence of UTF-16 code units. The strings of the model (file
  names, MIME types, identifiers, titles, queries) are lists of \<^typ>\<open>char\<close>: the code units
  below 256, that is Basic Latin and the Latin-1 Supplement. On these strings
  \<^verbatim>\<open>String.prototype.toLowerCase\<close> works unit by unit: the capital letters A to Z
  (65 to 90), A-grave to O-diaeresis (192 to 214) and O-stroke to Thorn (216 to 222) go
  to the unit 32 above, and every other unit stays.
\<close>

definition toLowerChar :: "char \<Rightarrow> char" where
  "toLowerChar c =
     (let u = (of_char c :: nat)
      in if (65 \<le> u \<and> u \<le> 90) \<or> (192 \<le> u \<and> u \<le> 214) \<or> (216 \<le> u \<and> u \<le> 222)
         then char_of (u + 32) else c)"

definition toLowerCase :: "string \<Rightarrow> string" where
  "toLowerCase s = map toLowerChar s"



text \<open>\<^verbatim>\<open>s.startsWith(q)\<close> and \<^verbatim>\<open>s.includes(q)\<close>: \<open>q\<close> occurs in \<open>s\<close> at some offset.\<close>

fun startsWith :: "'a list \<Rightarrow> 'a list \<Rightarrow> bool" where
  "startsWith s [] = True"
| "startsWith [] (q # qs) = False"
| "startsWith (c # cs) (q # qs) = (c = q \<and> startsWith cs qs)"

fun includes' :: "'a list \<Rightarrow> 'a list \<Rightarrow> bool" where
  "includes' [] q = (q = [])"
| "includes' (c # cs) q = (startsWith (c # cs) q \<or> includes' cs q)"

text \<open>\<^verbatim>\<open>n.toString(36)\<close> for a non-negative integer.\<close>

fun toString36 :: "nat \<Rightarrow> string" where
  "toString36 n =
     (if n < 36 then [''0123456789abcdefghijklmnopqrstuvwxyz'' ! n]
      else toString36 (n div 36) @ [''0123456789abcdefghijklmnopqrstuvwxyz'' ! (n mod 36)])"

declare toString36.simps [simp del]

text \<open>
  \<^verbatim>\<open>name.replace(/\.[^/.]+$/, "")\<close> (App.tsx:47). The pattern matches at an offset when
  the rest of the string from there is a dot followed by one or more characters, none of
  them a dot or a slash, up to the end; \<^verbatim>\<open>replace\<close> removes the leftmost match.
\<close>

definition extensionAt :: "string \<Rightarrow> bool" where
  "extensionAt s =
     (case s of
        [] \<Rightarrow> False
      | c # r \<Rightarrow> c = CHR ''.'' \<and> r \<noteq> [] \<and> list_all (\<lambda>d. d \<noteq> CHR ''/'' \<and> d \<noteq> CHR ''.'') r)"

fun replaceExtension :: "string \<Rightarrow> string" where
  "replaceExtension [] = []"
| "replaceExtension (c # cs) = (if extensionAt (c # cs) then [] else c # replaceExtension cs)"

subsection \<open>The data model (types.ts)\<close>

text \<open>
  A browser \<^verbatim>\<open>File\<close>: its name, its MIME type and its content.
\<close>

record File =
  name :: string
  type' :: string
  bytes :: "nat list"

text \<open>
  The \<^verbatim>\<open>Book\<close> interface. The optional fields are options; \<open>lastPage\<close> is an option
  as well, so that a stored record without the field can be written down (the reader
  guards against it with \<^verbatim>\<open>book.lastPage || 1\<close>).
\<close>

record Book =
  id' :: string
  title :: string
  fileName :: string
  blob :: File
  thumbnail :: "string option"
  lastPage :: "int option"
  addedAt :: nat
  summary :: "string option"
  isMarked :: "bool option"

text \<open>JavaScript truthiness of an optional string and of an optional boolean.\<close>

definition truthyString :: "string option \<Rightarrow> bool" where
  "truthyString s = (case s of None \<Rightarrow> False | Some v \<Rightarrow> v \<noteq> [])"

definition truthyFlag :: "bool option \<Rightarrow> bool" where
  "truthyFlag f = (case f of None \<Rightarrow> False | Some v \<Rightarrow> v)"

subsection \<open>The record store\<close>

text \<open>
  Modelled from the spec: \<^verbatim>\<open>services/dbService\<close> is not among the sources. The spec
  describes one table of book records keyed by identifier, with "insert-or-replace one
  record" and "list-all records (ordered arbitrarily)". The table is a list of records;
  saving drops any record with the same identifier and adds the new one.
\<close>

definition saveBook :: "Book \<Rightarrow> Book list \<Rightarrow> Book list" where
  "saveBook b table = filter (\<lambda>x. id' x \<noteq> id' b) table @ [b]"

definition getAllBooks :: "Book list \<Rightarrow> Book list" where
  "getAllBooks table = table"

subsection \<open>The library view (App.tsx)\<close>

text \<open>
  What the view shows or logs, and which service it calls, in the order it happens:
  the two alerts (App.tsx:37 and :82), the console warnings (:53, :63), the console
  errors (:28, :81) and the calls into the services.
\<close>

datatype effect =
    AlertInvalidPdf
  | AlertUploadFailed
  | WarnThumbnail
  | WarnSummary
  | ErrorLoadLibrary
  | ErrorUpload
  | CallGenerateThumbnail
  | CallExtractText
  | CallGetBookSummary
  | CallSaveBook
  | CallGetAllBooks

fun isAlert :: "effect \<Rightarrow> bool" where
  "isAlert AlertInvalidPdf = True"
| "isAlert AlertUploadFailed = True"
| "isAlert _ = False"

fun isCall :: "effect \<Rightarrow> bool" where
  "isCall CallGenerateThumbnail = True"
| "isCall CallExtractText = True"
| "isCall CallGetBookSummary = True"
| "isCall CallSaveBook = True"
| "isCall CallGetAllBooks = True"
| "isCall _ = False"

text \<open>A rejected promise; the handlers only log the reason.\<close>

datatype failure = Rejected

text \<open>
  Everything one upload reads from outside: \<^verbatim>\<open>crypto.randomUUID\<close> (absent when it is not
  a function), the digits of \<^verbatim>\<open>Math.random().toString(36).substring(2)\<close>, the two readings
  of \<^verbatim>\<open>Date.now()\<close> (:45 and :73), the three enrichment services, and whether the store
  accepts the write and the reload.
\<close>

record UploadEnv =
  randomUUID :: "string option"
  mathRandom36 :: string
  dateNowId :: nat
  generateThumbnail :: "File \<Rightarrow> failure + string"
  extractTextForSummary :: "File \<Rightarrow> failure + string"
  getBookSummary :: "string \<Rightarrow> failure + string"
  dateNowAdded :: nat
  saveBookOk :: bool
  getAllBooksOk :: bool

record App =
  books :: "Book list"
  currentBook :: "Book option"
  isUploading :: bool
  searchQuery :: string
  showOnlyMarked :: bool
  fileInputValue :: string
  table :: "Book list"
  effects :: "effect list"

definition emit :: "effect \<Rightarrow> App \<Rightarrow> App" where
  "emit e st = st\<lparr>effects := effects st @ [e]\<rparr>"

text \<open>\<^verbatim>\<open>loadLibrary\<close> (App.tsx:23-30).\<close>

definition loadLibrary :: "bool \<Rightarrow> App \<Rightarrow> App" where
  "loadLibrary ok st =
     (let st1 = emit CallGetAllBooks st
      in if ok then st1\<lparr>books := getAllBooks (table st1)\<rparr> else emit ErrorLoadLibrary st1)"

text \<open>The identifier (App.tsx:43-45) and the title (:47).\<close>

definition newId :: "UploadEnv \<Rightarrow> string" where
  "newId env =
     (case randomUUID env of
        Some uuid \<Rightarrow> uuid
      | None \<Rightarrow> mathRandom36 env @ toString36 (dateNowId env))"

text \<open>The two best-effort steps (App.tsx:49-54 and :56-64).\<close>

definition tryThumbnail :: "UploadEnv \<Rightarrow> File \<Rightarrow> App \<Rightarrow> string option \<times> App" where
  "tryThumbnail env file st =
     (case generateThumbnail env file of
        Inr t \<Rightarrow> (Some t, emit CallGenerateThumbnail st)
      | Inl e \<Rightarrow> (None, emit WarnThumbnail (emit CallGenerateThumbnail st)))"

definition trySummary :: "UploadEnv \<Rightarrow> File \<Rightarrow> App \<Rightarrow> string option \<times> App" where
  "trySummary env file st =
     (case extractTextForSummary env file of
        Inl e \<Rightarrow> (None, emit WarnSummary (emit CallExtractText st))
      | Inr previewText \<Rightarrow>
          if previewText = [] then (None, emit CallExtractText st)
          else
            (case getBookSummary env previewText of
               Inr s \<Rightarrow> (Some s, emit CallGetBookSummary (emit CallExtractText st))
             | Inl e \<Rightarrow>
                 (None, emit WarnSummary (emit CallGetBookSummary (emit CallExtractText st)))))"

text \<open>The record that is stored (App.tsx:66-76).\<close>

definition newBook :: "UploadEnv \<Rightarrow> File \<Rightarrow> string option \<Rightarrow> string option \<Rightarrow> Book" where
  "newBook env file thumb summ =
     \<lparr>id' = newId env,
      title = replaceExtension (name file),
      fileName = name file,
      blob = file,
      thumbnail = thumb,
      lastPage = Some 1,
      addedAt = dateNowAdded env,
      summary = summ,
      isMarked = Some False\<rparr>"

text \<open>
  \<^verbatim>\<open>handleFileUpload\<close> (App.tsx:32-87); the argument is \<^verbatim>\<open>event.target.files?.[0]\<close>.
  A rejected \<^verbatim>\<open>saveBook\<close> is caught at :80; the \<^verbatim>\<open>finally\<close> block (:83-86) runs on both
  paths. The file input is mounted with the view, so its ref is set.
\<close>

definition handleFileUpload :: "UploadEnv \<Rightarrow> File option \<Rightarrow> App \<Rightarrow> App" where
  "handleFileUpload env picked st =
     (case picked of
        None \<Rightarrow> st
      | Some file \<Rightarrow>
          if type' file \<noteq> ''application/pdf'' then emit AlertInvalidPdf st
          else
            (let st1 = st\<lparr>isUploading := True\<rparr>;
                 (thumb, st2) = tryThumbnail env file st1;
                 (summ, st3) = trySummary env file st2;
                 st4 = emit CallSaveBook st3;
                 st5 = (if saveBookOk env
                        then loadLibrary (getAllBooksOk env)
                               (st4\<lparr>table := saveBook (newBook env file thumb summ) (table st4)\<rparr>)
                        else emit AlertUploadFailed (emit ErrorUpload st4))
             in st5\<lparr>isUploading := False, fileInputValue := []\<rparr>))"

text \<open>
  The record an upload passes to \<^verbatim>\<open>saveBook\<close>: \<^verbatim>\<open>newBook\<close> with what the two best-effort
  steps returned.
\<close>

definition uploaded :: "UploadEnv \<Rightarrow> File \<Rightarrow> App \<Rightarrow> Book" where
  "uploaded env file st =
     newBook env file
       (fst (tryThumbnail env file (st\<lparr>isUploading := True\<rparr>)))
       (fst (trySummary env file (snd (tryThumbnail env file (st\<lparr>isUploading := True\<rparr>)))))"

text \<open>\<^verbatim>\<open>filteredBooks\<close> (App.tsx:111-115).\<close>

text \<open>
  The test of :112, \<^verbatim>\<open>title.toLowerCase().includes(query.toLowerCase())\<close>, for code
  units of any width and the lower-casing that goes with them.
\<close>

definition includesLowered :: "('a list \<Rightarrow> 'a list) \<Rightarrow> 'a list \<Rightarrow> 'a list \<Rightarrow> bool" where
  "includesLowered lower t query = includes' (lower t) (lower query)"

definition matchesSearch :: "string \<Rightarrow> Book \<Rightarrow> bool" where
  "matchesSearch query b = includesLowered toLowerCase (title b) query"

definition matchesMarked :: "bool \<Rightarrow> Book \<Rightarrow> bool" where
  "matchesMarked onlyMarked b = (if onlyMarked then truthyFlag (isMarked b) else True)"

definition filteredBooks :: "Book list \<Rightarrow> string \<Rightarrow> bool \<Rightarrow> Book list" where
  "filteredBooks bs query onlyMarked =
     filter (\<lambda>b. matchesSearch query b \<and> matchesMarked onlyMarked b) bs"




subsection \<open>The book card (components/BookCard) and the library grid\<close>

text \<open>
  What a card shows (part_000:19-92): the cover image or the "No Preview" placeholder
  (:35-45), the summary tooltip and badge when there is a summary (:19, :67), the page
  label when \<open>lastPage\<close> is above 1 (:84) and the marked badge (:89).
\<close>

datatype cover = CoverImage string | NoPreview

record Card =
  cardTitle :: string
  cardCover :: cover
  cardInsight :: "string option"
  cardPageLabel :: "int option"
  cardMarked :: bool

definition BookCard :: "Book \<Rightarrow> Card" where
  "BookCard b =
     \<lparr>cardTitle = title b,
      cardCover = (case thumbnail b of
                     None \<Rightarrow> NoPreview
                   | Some t \<Rightarrow> if t = [] then NoPreview else CoverImage t),
      cardInsight = (if truthyString (summary b) then summary b else None),
      cardPageLabel = (case lastPage b of
                         None \<Rightarrow> None
                       | Some n \<Rightarrow> if n > 1 then Some n else None),
      cardMarked = truthyFlag (isMarked b)\<rparr>"

text \<open>
  The main area (App.tsx:166-186): the empty-library message, or one card per book of
  \<^verbatim>\<open>filteredBooks\<close>. Clicking a card sets \<^verbatim>\<open>currentBook\<close> (:180), and the reader overlay
  is rendered while \<^verbatim>\<open>currentBook\<close> is set (:202).
\<close>

datatype mainArea = EmptyLibrary | Grid "Card list"

definition libraryMain :: "App \<Rightarrow> mainArea" where
  "libraryMain st =
     (if books st = [] \<and> \<not> isUploading st then EmptyLibrary
      else Grid (map BookCard (filteredBooks (books st) (searchQuery st) (showOnlyMarked st))))"

definition cardClick :: "Book \<Rightarrow> App \<Rightarrow> App" where
  "cardClick b st = st\<lparr>currentBook := Some b\<rparr>"

definition readerShown :: "App \<Rightarrow> Book option" where
  "readerShown st = currentBook st"

text \<open>The state of the view when it is mounted (App.tsx:12-16), over a given store.\<close>

definition initialApp :: "Book list \<Rightarrow> App" where
  "initialApp stored =
     \<lparr>books = [], currentBook = None, isUploading = False, searchQuery = [],
      showOnlyMarked = False, fileInputValue = [], table = stored, effects = []\<rparr>"

subsection \<open>The reader (PdfReader.tsx)\<close>

text \<open>
  The zoom scale is a JavaScript number, a double. The arithmetic is written over the
  reals with the rounding made explicit: \<open>fl x\<close> is the double that stands for the real
  \<open>x\<close>, so the literal \<^verbatim>\<open>0.2\<close> is \<open>fl 0.2\<close> and \<^verbatim>\<open>prev + 0.2\<close> is \<open>fl (prev + fl 0.2)\<close>.
  A rounding is monotone, leaves a value it produced unchanged and keeps 0; rounding to
  the nearest double is one, and so is the identity (exact arithmetic).
\<close>

definition rounding :: "(real \<Rightarrow> real) \<Rightarrow> bool" where
  "rounding fl = (mono fl \<and> (\<forall>x. fl (fl x) = fl x) \<and> fl 0 = 0)"

definition exact :: "real \<Rightarrow> real" where
  "exact x = x"

text \<open>
  The state of \<^verbatim>\<open>PdfReader\<close> (:93-101). The document proxy is known by its page count.
  \<open>scrolled\<close> lists the pages on which \<^verbatim>\<open>scrollIntoView\<close> was called and \<open>lastPageWrites\<close>
  the calls of \<^verbatim>\<open>updateLastPage\<close> that were issued and have not settled, oldest first.
\<close>

record Reader =
  book :: Book
  numPages :: int
  currentPage :: int
  loading :: bool
  scale :: real
  showControls :: bool
  pdfDoc :: "int option"
  initialScrollDone :: bool
  scrolled :: "int list"
  lastPageWrites :: "(string \<times> int) list"

text \<open>\<^verbatim>\<open>book.lastPage || 1\<close> (:94, :122): an absent field and 0 are falsy.\<close>

definition lastPageOr1 :: "Book \<Rightarrow> int" where
  "lastPageOr1 b = (case lastPage b of None \<Rightarrow> 1 | Some n \<Rightarrow> if n = 0 then 1 else n)"

definition openReader :: "(real \<Rightarrow> real) \<Rightarrow> Book \<Rightarrow> Reader" where
  "openReader fl b =
     \<lparr>book = b, numPages = 0, currentPage = lastPageOr1 b, loading = True, scale = fl 1.0,
      showControls = True, pdfDoc = None, initialScrollDone = False, scrolled = [],
      lastPageWrites = []\<rparr>"

text \<open>\<^verbatim>\<open>loadPdf\<close> (:104-116) once the loading task has settled.\<close>

definition loadPdf :: "failure + int \<Rightarrow> Reader \<Rightarrow> Reader" where
  "loadPdf outcome st =
     (case outcome of
        Inr n \<Rightarrow> st\<lparr>pdfDoc := Some n, numPages := n, loading := False\<rparr>
      | Inl e \<Rightarrow> st\<lparr>loading := False\<rparr>)"

text \<open>
  The pages that are mounted (:191-211): none while loading or without a document,
  otherwise one \<^verbatim>\<open>PdfPage\<close> per number from 1 to \<open>numPages\<close>, each with the reader's
  scale. The element \<^verbatim>\<open>page-n\<close> exists exactly for these numbers.
\<close>

definition pageNumbers :: "Reader \<Rightarrow> int list" where
  "pageNumbers st =
     (if loading st then []
      else (case pdfDoc st of None \<Rightarrow> [] | Some d \<Rightarrow> [1..numPages st]))"

record PageProps =
  pageNumber :: int
  pageScale :: real

definition pages :: "Reader \<Rightarrow> PageProps list" where
  "pages st = map (\<lambda>n. \<lparr>pageNumber = n, pageScale = scale st\<rparr>) (pageNumbers st)"

definition pageElement :: "Reader \<Rightarrow> int \<Rightarrow> bool" where
  "pageElement st n = (n \<in> set (pageNumbers st))"

text \<open>
  The initial-scroll effect (:120-128). The scroll container is mounted with the reader,
  so its ref is set.
\<close>

definition initialScroll :: "Reader \<Rightarrow> Reader" where
  "initialScroll st =
     (if \<not> loading st \<and> pdfDoc st \<noteq> None \<and> \<not> initialScrollDone st
      then (if pageElement st (lastPageOr1 (book st))
            then st\<lparr>scrolled := scrolled st @ [lastPageOr1 (book st)],
                    initialScrollDone := True\<rparr>
            else st)
      else st)"

text \<open>\<^verbatim>\<open>handlePageVisible\<close> (:130-133): the write is issued and not awaited.\<close>

definition handlePageVisible :: "int \<Rightarrow> Reader \<Rightarrow> Reader" where
  "handlePageVisible n st =
     st\<lparr>currentPage := n, lastPageWrites := lastPageWrites st @ [(id' (book st), n)]\<rparr>"

text \<open>
  The observer's callback of page \<open>n\<close> (:58-65), on the reader's state: one call of
  \<^verbatim>\<open>onVisible\<close> for each entry that is intersecting.
\<close>

definition observed :: "int \<Rightarrow> bool list \<Rightarrow> Reader \<Rightarrow> Reader" where
  "observed n entries st =
     foldl (\<lambda>s isIntersecting. if isIntersecting then handlePageVisible n s else s) st entries"

text \<open>
  Modelled from the spec: \<^verbatim>\<open>updateLastPage\<close> of \<^verbatim>\<open>services/dbService\<close> is not among the
  sources; the spec has "update a single field (last-page) by identifier". When an
  issued write settles, the table changes if it succeeded; no code of the reader runs.
\<close>

definition updateLastPage :: "string \<Rightarrow> int \<Rightarrow> Book list \<Rightarrow> Book list" where
  "updateLastPage bookId n tbl = map (\<lambda>b. if id' b = bookId then b\<lparr>lastPage := Some n\<rparr> else b) tbl"

definition settleWrite :: "bool \<Rightarrow> Reader \<times> Book list \<Rightarrow> Reader \<times> Book list" where
  "settleWrite ok w =
     (case lastPageWrites (fst w) of
        [] \<Rightarrow> w
      | (bookId, n) # rest \<Rightarrow>
          ((fst w)\<lparr>lastPageWrites := rest\<rparr>,
           if ok then updateLastPage bookId n (snd w) else snd w))"

text \<open>\<^verbatim>\<open>scrollToPage\<close> (:135-141) and the two footer buttons (:216-258).\<close>

definition scrollTarget :: "int \<Rightarrow> Reader \<Rightarrow> int" where
  "scrollTarget n st = max 1 (min n (numPages st))"

definition scrollToPage :: "int \<Rightarrow> Reader \<Rightarrow> Reader" where
  "scrollToPage n st =
     (if pageElement st (scrollTarget n st)
      then st\<lparr>scrolled := scrolled st @ [scrollTarget n st]\<rparr>
      else st)"

definition prevDisabled :: "Reader \<Rightarrow> bool" where
  "prevDisabled st = (currentPage st \<le> 1)"

definition nextDisabled :: "Reader \<Rightarrow> bool" where
  "nextDisabled st = (currentPage st \<ge> numPages st)"

definition clickPrev :: "Reader \<Rightarrow> Reader" where
  "clickPrev st = (if prevDisabled st then st else scrollToPage (currentPage st - 1) st)"

definition clickNext :: "Reader \<Rightarrow> Reader" where
  "clickNext st = (if nextDisabled st then st else scrollToPage (currentPage st + 1) st)"

text \<open>\<^verbatim>\<open>zoomIn\<close>, \<^verbatim>\<open>zoomOut\<close> and \<^verbatim>\<open>resetZoom\<close> (:143-145).\<close>

definition zoomIn :: "(real \<Rightarrow> real) \<Rightarrow> Reader \<Rightarrow> Reader" where
  "zoomIn fl st = st\<lparr>scale := min (fl (scale st + fl 0.2)) (fl 3.0)\<rparr>"

definition zoomOut :: "(real \<Rightarrow> real) \<Rightarrow> Reader \<Rightarrow> Reader" where
  "zoomOut fl st = st\<lparr>scale := max (fl (scale st - fl 0.2)) (fl 0.4)\<rparr>"

definition resetZoom :: "(real \<Rightarrow> real) \<Rightarrow> Reader \<Rightarrow> Reader" where
  "resetZoom fl st = st\<lparr>scale := fl 1.0\<rparr>"

text \<open>
  \<^verbatim>\<open>toggleControls\<close> (:147-152) is the click handler of the scroll container (:187). A
  click reaches it from the container itself or from an element inside it: the loading
  indicator (:192-195), the column that holds the pages (:197), or an element of a page,
  which lies in a \<^verbatim>\<open>.pdf-page-container\<close> (:200). The header and the footer are outside
  the container; their clicks never reach the handler.
\<close>

datatype clickTarget = ScrollContainer | LoadingIndicator | PagesColumn | InsidePage int

definition targetIsCurrentTarget :: "clickTarget \<Rightarrow> bool" where
  "targetIsCurrentTarget t = (t = ScrollContainer)"

definition closestPageContainer :: "clickTarget \<Rightarrow> bool" where
  "closestPageContainer t = (case t of InsidePage n \<Rightarrow> True | _ \<Rightarrow> False)"

definition toggleControls :: "clickTarget \<Rightarrow> Reader \<Rightarrow> Reader" where
  "toggleControls t st =
     (if targetIsCurrentTarget t \<or> closestPageContainer t
      then st\<lparr>showControls := \<not> showControls st\<rparr>
      else st)"

text \<open>
  What can happen to an open reader: the document load settles, the initial-scroll
  effect runs, the observer of a mounted page delivers entries, or the user clicks the
  reading surface or one of the controls.
\<close>

datatype readerEvent =
    PdfSettled "failure + int"
  | InitialScrollEffect
  | Observed int "bool list"
  | ClickSurface clickTarget
  | ClickZoomOut
  | ClickZoomIn
  | ClickResetZoom
  | ClickPrev
  | ClickNext

fun readerStep :: "(real \<Rightarrow> real) \<Rightarrow> Reader \<Rightarrow> readerEvent \<Rightarrow> Reader" where
  "readerStep fl st (PdfSettled outcome) = loadPdf outcome st"
| "readerStep fl st InitialScrollEffect = initialScroll st"
| "readerStep fl st (Observed n entries) = (if pageElement st n then observed n entries st else st)"
| "readerStep fl st (ClickSurface t) = toggleControls t st"
| "readerStep fl st ClickZoomOut = zoomOut fl st"
| "readerStep fl st ClickZoomIn = zoomIn fl st"
| "readerStep fl st ClickResetZoom = resetZoom fl st"
| "readerStep fl st ClickPrev = clickPrev st"
| "readerStep fl st ClickNext = clickNext st"

definition readerRun :: "(real \<Rightarrow> real) \<Rightarrow> Reader \<Rightarrow> readerEvent list \<Rightarrow> Reader" where
  "readerRun fl st evs = foldl (readerStep fl) st evs"

subsection \<open>One page of the reader (PdfPage)\<close>

text \<open>
  The state of one \<^verbatim>\<open>PdfPage\<close> and of its canvas. \<open>renderTaskRef\<close> is the ref of :23, by
  the number of the task it holds. \<open>suspended\<close> lists the calls of \<^verbatim>\<open>renderPage\<close> that
  wait at \<^verbatim>\<open>await pdfDoc.getPage\<close> (:33), oldest first, each with the scale of its closure.
  \<open>drawing\<close> lists the render tasks that draw on the canvas: started (:47) and neither
  finished nor cancelled. \<open>canvasScale\<close> is the scale the canvas was last sized for
  (:40-45) and \<open>painted\<close> the scale of the last task that drew to the end.
\<close>

record PageState =
  canvasMounted :: bool
  renderTaskRef :: "nat option"
  suspended :: "real list"
  drawing :: "(nat \<times> real) list"
  tasksStarted :: nat
  canvasScale :: "real option"
  painted :: "real option"
  renderErrors :: nat

definition mountedPage :: PageState where
  "mountedPage =
     \<lparr>canvasMounted = True, renderTaskRef = None, suspended = [], drawing = [],
      tasksStarted = 0, canvasScale = None, painted = None, renderErrors = 0\<rparr>"

text \<open>
  \<^verbatim>\<open>RenderTask.cancel()\<close> of the rendering library: a task that is still drawing stops (its
  promise rejects with \<^verbatim>\<open>RenderingCancelledException\<close>, which :50 does not log); a task that
  has finished is not affected.
\<close>

definition cancel :: "nat \<Rightarrow> PageState \<Rightarrow> PageState" where
  "cancel task pg = pg\<lparr>drawing := filter (\<lambda>d. fst d \<noteq> task) (drawing pg)\<rparr>"

text \<open>
  \<^verbatim>\<open>renderPage\<close> up to its first \<^verbatim>\<open>await\<close> (:26-33): the guard, the cancellation of the
  task in the ref, and the request for the page.
\<close>

definition renderPage :: "real \<Rightarrow> PageState \<Rightarrow> PageState" where
  "renderPage s pg =
     (if \<not> canvasMounted pg then pg
      else
        (let pg1 = (case renderTaskRef pg of None \<Rightarrow> pg | Some task \<Rightarrow> cancel task pg)
         in pg1\<lparr>suspended := suspended pg1 @ [s]\<rparr>))"

text \<open>
  The rest of \<^verbatim>\<open>renderPage\<close> (:33-48), run when the page request of the oldest suspended
  call settles: a rejected request and a canvas that is gone are logged (:51); without a
  2d context the call returns (:38); otherwise the canvas is sized, a render task is
  started and stored in the ref.
\<close>

definition resumeRenderPage :: "bool \<Rightarrow> bool \<Rightarrow> PageState \<Rightarrow> PageState" where
  "resumeRenderPage pageOk contextOk pg =
     (case suspended pg of
        [] \<Rightarrow> pg
      | s # rest \<Rightarrow>
          (let pg1 = pg\<lparr>suspended := rest\<rparr>
           in if \<not> pageOk \<or> \<not> canvasMounted pg1 then pg1\<lparr>renderErrors := renderErrors pg1 + 1\<rparr>
              else if \<not> contextOk then pg1
              else pg1\<lparr>canvasScale := Some s,
                       renderTaskRef := Some (tasksStarted pg1),
                       drawing := drawing pg1 @ [(tasksStarted pg1, s)],
                       tasksStarted := tasksStarted pg1 + 1\<rparr>))"

text \<open>
  A render task that is drawing settles (:48): it has drawn the page at its scale, or it
  failed and the error is logged (:51).
\<close>

definition renderSettled :: "nat \<Rightarrow> bool \<Rightarrow> PageState \<Rightarrow> PageState" where
  "renderSettled task ok pg =
     (case map_of (drawing pg) task of
        None \<Rightarrow> pg
      | Some s \<Rightarrow>
          (let pg1 = pg\<lparr>drawing := filter (\<lambda>d. fst d \<noteq> task) (drawing pg)\<rparr>
           in if ok then pg1\<lparr>painted := Some s\<rparr>
              else pg1\<lparr>renderErrors := renderErrors pg1 + 1\<rparr>))"

text \<open>
  The observer's callback (:58-65) on the page's own state: one call of \<^verbatim>\<open>renderPage\<close>
  for each intersecting entry. The effect of :56-74 creates a new observer whenever
  \<^verbatim>\<open>renderPage\<close> changes, that is whenever the scale changes, and a new observer reports
  the page's current intersection; so a scale change on a visible page is a callback
  with the new scale.
\<close>

datatype pageEvent =
    Intersecting real "bool list"
  | PageRequestSettled bool bool
  | RenderTaskSettled nat bool

fun pageStep :: "PageState \<Rightarrow> pageEvent \<Rightarrow> PageState" where
  "pageStep pg (Intersecting s entries) =
     foldl (\<lambda>g isIntersecting. if isIntersecting then renderPage s g else g) pg entries"
| "pageStep pg (PageRequestSettled pageOk contextOk) = resumeRenderPage pageOk contextOk pg"
| "pageStep pg (RenderTaskSettled task ok) = renderSettled task ok pg"

definition pageRun :: "PageState \<Rightarrow> pageEvent list \<Rightarrow> PageState" where
  "pageRun pg evs = foldl pageStep pg evs"

text \<open>
  No call of \<^verbatim>\<open>renderPage\<close> is suspended, at most one task draws, and it is the task in
  the ref.
\<close>

definition serialized :: "PageState \<Rightarrow> bool" where
  "serialized pg =
     (suspended pg = [] \<and> length (drawing pg) \<le> 1 \<and>
      list_all (\<lambda>d. renderTaskRef pg = Some (fst d)) (drawing pg))"

subsection \<open>Example values\<close>

definition cleanCodePdf :: File where
  "cleanCodePdf = \<lparr>name = ''Clean Code.pdf'', type' = ''application/pdf'', bytes = [37, 80, 68, 70]\<rparr>"

definition notesTxt :: File where
  "notesTxt = \<lparr>name = ''notes.txt'', type' = ''text/plain'', bytes = [104, 105]\<rparr>"

definition cleanCode :: Book where
  "cleanCode =
     \<lparr>id' = ''b1'', title = ''Clean Code'', fileName = ''Clean Code.pdf'', blob = cleanCodePdf,
      thumbnail = None, lastPage = Some 1, addedAt = 1000, summary = None,
      isMarked = Some True\<rparr>"

definition dune :: Book where
  "dune =
     \<lparr>id' = ''b2'', title = ''Dune'', fileName = ''Dune.pdf'',
      blob = \<lparr>name = ''Dune.pdf'', type' = ''application/pdf'', bytes = [37, 80, 68, 70]\<rparr>,
      thumbnail = Some ''data:image/png;base64,AA'', lastPage = Some 7, addedAt = 2000,
      summary = Some ''A desert planet.'', isMarked = None\<rparr>"



text \<open>An environment in which every enrichment step fails and the store works.\<close>

definition failingEnrichment :: UploadEnv where
  "failingEnrichment =
     \<lparr>randomUUID = Some ''3f2c-uuid'', mathRandom36 = ''k3j9x'', dateNowId = 1700000000000,
      generateThumbnail = (\<lambda>f. Inl Rejected),
      extractTextForSummary = (\<lambda>f. Inl Rejected),
      getBookSummary = (\<lambda>t. Inl Rejected),
      dateNowAdded = 1700000000123, saveBookOk = True, getAllBooksOk = True\<rparr>"

text \<open>
  The same environment where \<^verbatim>\<open>crypto.randomUUID\<close> is not a function, and where it returns
  a string that is already the identifier of a stored book.
\<close>

definition withoutRandomUUID :: UploadEnv where
  "withoutRandomUUID = failingEnrichment\<lparr>randomUUID := None\<rparr>"

definition collidingUUID :: UploadEnv where
  "collidingUUID = failingEnrichment\<lparr>randomUUID := Some ''b2''\<rparr>"

section \<open>Theorems\<close>

subsection \<open>Strings\<close>









lemma replaceExtension_strip:
  "ext \<noteq> [] \<Longrightarrow> CHR ''.'' \<notin> set ext \<Longrightarrow> CHR ''/'' \<notin> set ext \<Longrightarrow>
   replaceExtension (stem @ ''.'' @ ext) = stem"
proof (induction stem)
  case Nil
  then show ?case by (auto simp: extensionAt_def list_all_iff)
next
  case (Cons c stem)
  have "\<not> extensionAt (c # stem @ ''.'' @ ext)"
    by (simp add: extensionAt_def)
  with Cons show ?case by simp
qed

lemma replaceExtension_no_dot: "CHR ''.'' \<notin> set s \<Longrightarrow> replaceExtension s = s"
  by (induction s) (auto simp: extensionAt_def)

subsection \<open>The library list\<close>





subsection \<open>Uploading\<close>

lemma saveBook_only: "filter (\<lambda>x. id' x = id' b) (saveBook b tbl) = [b]"
  by (simp add: saveBook_def filter_empty_conv)

lemma saveBook_distinct: "distinct (map id' tbl) \<Longrightarrow> distinct (map id' (saveBook b tbl))"
  by (auto simp: saveBook_def distinct_map_filter)

lemma saveBook_fresh:
  "id' (b :: Book) \<notin> set (map id' tbl) \<Longrightarrow> filter (\<lambda>x. id' x \<noteq> id' b) tbl = tbl"
  by (induction tbl) auto

lemma saveBook_member: "b \<in> set (saveBook b tbl)"
  by (simp add: saveBook_def)

lemma tryThumbnail_fst:
  "fst (tryThumbnail env file st) =
     (case generateThumbnail env file of Inl e \<Rightarrow> None | Inr t \<Rightarrow> Some t)"
  by (simp add: tryThumbnail_def split: sum.splits)

lemma trySummary_fst:
  "fst (trySummary env file st) =
     (case extractTextForSummary env file of
        Inl e \<Rightarrow> None
      | Inr txt \<Rightarrow>
          if txt = [] then None
          else (case getBookSummary env txt of Inl e \<Rightarrow> None | Inr s \<Rightarrow> Some s))"
  by (simp add: trySummary_def split: sum.splits)

lemma tryThumbnail_frame:
  "table (snd (tryThumbnail env file st)) = table st"
  "books (snd (tryThumbnail env file st)) = books st"
  "searchQuery (snd (tryThumbnail env file st)) = searchQuery st"
  "showOnlyMarked (snd (tryThumbnail env file st)) = showOnlyMarked st"
  "filter isAlert (effects (snd (tryThumbnail env file st))) = filter isAlert (effects st)"
  by (simp_all add: tryThumbnail_def emit_def split: sum.splits)

lemma trySummary_frame:
  "table (snd (trySummary env file st)) = table st"
  "books (snd (trySummary env file st)) = books st"
  "searchQuery (snd (trySummary env file st)) = searchQuery st"
  "showOnlyMarked (snd (trySummary env file st)) = showOnlyMarked st"
  "filter isAlert (effects (snd (trySummary env file st))) = filter isAlert (effects st)"
  by (simp_all add: trySummary_def emit_def split: sum.splits)

lemma upload_table:
  assumes "type' file = ''application/pdf''" and "saveBookOk env"
  shows "table (handleFileUpload env (Some file) st) = saveBook (uploaded env file st) (table st)"
  using assms
  by (simp add: handleFileUpload_def uploaded_def Let_def split_beta loadLibrary_def emit_def
        tryThumbnail_frame trySummary_frame)

lemma upload_books:
  assumes "type' file = ''application/pdf''" and "saveBookOk env" and "getAllBooksOk env"
  shows "books (handleFileUpload env (Some file) st) = saveBook (uploaded env file st) (table st)"
  using assms
  by (simp add: handleFileUpload_def uploaded_def Let_def split_beta loadLibrary_def emit_def
        getAllBooks_def tryThumbnail_frame trySummary_frame)

lemma upload_alerts:
  assumes "type' file = ''application/pdf''" and "saveBookOk env"
  shows "filter isAlert (effects (handleFileUpload env (Some file) st)) = filter isAlert (effects st)"
  using assms
  by (simp add: handleFileUpload_def Let_def split_beta loadLibrary_def emit_def
        tryThumbnail_frame trySummary_frame)

lemma upload_attempts_save:
  assumes "type' file = ''application/pdf''"
  shows "CallSaveBook \<in> set (effects (handleFileUpload env (Some file) st))"
  using assms
  by (simp add: handleFileUpload_def Let_def split_beta loadLibrary_def emit_def)

lemma upload_frame:
  assumes "type' file = ''application/pdf''"
  shows "searchQuery (handleFileUpload env (Some file) st) = searchQuery st"
    "showOnlyMarked (handleFileUpload env (Some file) st) = showOnlyMarked st"
    "isUploading (handleFileUpload env (Some file) st) = False"
  using assms
  by (simp_all add: handleFileUpload_def Let_def split_beta loadLibrary_def emit_def
        tryThumbnail_frame trySummary_frame)

theorem upload_id_collision_counterexample:
  "newId collidingUUID \<in> set (map id' (table (initialApp [dune])))
   \<and> map id' (table (handleFileUpload collidingUUID (Some cleanCodePdf) (initialApp [dune])))
       = [''b2'']
   \<and> map title (table (handleFileUpload collidingUUID (Some cleanCodePdf) (initialApp [dune])))
       = [''Clean Code'']"
proof -
  have pdf: "type' cleanCodePdf = ''application/pdf''" and ok: "saveBookOk collidingUUID"
    by (simp_all add: cleanCodePdf_def collidingUUID_def failingEnrichment_def)
  have nm: "replaceExtension (name cleanCodePdf) = ''Clean Code''"
    by (simp add: cleanCodePdf_def extensionAt_def)
  have "table (handleFileUpload collidingUUID (Some cleanCodePdf) (initialApp [dune]))
      = saveBook (uploaded collidingUUID cleanCodePdf (initialApp [dune])) [dune]"
    using upload_table [OF pdf ok, of "initialApp [dune]"] by (simp add: initialApp_def)
  moreover have "id' (uploaded collidingUUID cleanCodePdf (initialApp [dune])) = ''b2''"
    "title (uploaded collidingUUID cleanCodePdf (initialApp [dune])) = ''Clean Code''"
    by (simp_all add: uploaded_def newBook_def newId_def collidingUUID_def failingEnrichment_def nm)
  moreover have "id' dune = ''b2''" "newId collidingUUID = ''b2''"
    by (simp_all add: dune_def newId_def collidingUUID_def failingEnrichment_def)
  ultimately show ?thesis
    by (simp add: saveBook_def initialApp_def)
qed

text \<open>
  C1, as the code has it. For every upload of a PDF file that completes (the store accepts
  the write), a record is stored whose identifier is what \<^verbatim>\<open>crypto.randomUUID\<close> returned or,
  where that is not a function, the digits of \<^verbatim>\<open>Math.random\<close> followed by \<^verbatim>\<open>Date.now\<close> in
  base 36. The identifier is not checked against the store: when no stored record has it,
  the record is added to the records that were there and its identifier is unique;
  otherwise the record takes the place of the one stored under it. In both cases exactly
  one record of the table has the identifier, and identifiers that were distinct stay
  distinct. The record's \<open>lastPage\<close> is 1, its \<open>isMarked\<close> is false, its \<open>addedAt\<close> is the
  clock reading taken when the record is built, its \<open>fileName\<close> is the file's name and its
  \<open>title\<close> is that name without its extension: the part before the last dot when a
  non-empty extension without a slash follows it, the whole name when it has no dot.
\<close>

theorem upload_creates_book:
  assumes "type' file = ''application/pdf''" and "saveBookOk env"
    and "st' = handleFileUpload env (Some file) st"
  shows "\<exists>b. table st' = filter (\<lambda>x. id' x \<noteq> id' b) (table st) @ [b]
           \<and> id' b = (case randomUUID env of
                        Some uuid \<Rightarrow> uuid
                      | None \<Rightarrow> mathRandom36 env @ toString36 (dateNowId env))
           \<and> (id' b \<notin> set (map id' (table st)) \<longrightarrow> table st' = table st @ [b])
           \<and> filter (\<lambda>x. id' x = id' b) (table st') = [b]
           \<and> id' b = newId env
           \<and> lastPage b = Some 1
           \<and> isMarked b = Some False
           \<and> addedAt b = dateNowAdded env
           \<and> fileName b = name file
           \<and> title b = replaceExtension (name file)
           \<and> (\<forall>stem ext. name file = stem @ ''.'' @ ext \<and> ext \<noteq> [] \<and>
                  CHR ''.'' \<notin> set ext \<and> CHR ''/'' \<notin> set ext \<longrightarrow> title b = stem)
           \<and> (CHR ''.'' \<notin> set (name file) \<longrightarrow> title b = name file)
           \<and> (distinct (map id' (table st)) \<longrightarrow> distinct (map id' (table st')))
           \<and> (getAllBooksOk env \<longrightarrow> books st' = table st')"
proof -
  let ?b = "uploaded env file st"
  have tbl: "table st' = saveBook ?b (table st)"
    using assms by (simp add: upload_table)
  then have shape: "table st' = filter (\<lambda>x. id' x \<noteq> id' ?b) (table st) @ [?b]"
    by (simp add: saveBook_def)
  have picked: "id' ?b = (case randomUUID env of
                        Some uuid \<Rightarrow> uuid
                      | None \<Rightarrow> mathRandom36 env @ toString36 (dateNowId env))"
    by (simp add: uploaded_def newBook_def newId_def)
  have fresh: "id' ?b \<notin> set (map id' (table st)) \<longrightarrow> table st' = table st @ [?b]"
  proof
    assume "id' ?b \<notin> set (map id' (table st))"
    then have "filter (\<lambda>x. id' x \<noteq> id' ?b) (table st) = table st"
      by (rule saveBook_fresh)
    with shape show "table st' = table st @ [?b]"
      by simp
  qed
  have only: "filter (\<lambda>x. id' x = id' ?b) (table st') = [?b]"
    unfolding tbl by (rule saveBook_only)
  have fields: "id' ?b = newId env" "lastPage ?b = Some 1" "isMarked ?b = Some False"
    "addedAt ?b = dateNowAdded env" "fileName ?b = name file"
    "title ?b = replaceExtension (name file)"
    by (simp_all add: uploaded_def newBook_def)
  have ext: "\<forall>stem ext. name file = stem @ ''.'' @ ext \<and> ext \<noteq> [] \<and>
       CHR ''.'' \<notin> set ext \<and> CHR ''/'' \<notin> set ext \<longrightarrow> title ?b = stem"
    using replaceExtension_strip by (simp add: uploaded_def newBook_def)
  have nodot: "CHR ''.'' \<notin> set (name file) \<longrightarrow> title ?b = name file"
    by (simp add: uploaded_def newBook_def replaceExtension_no_dot)
  have dist: "distinct (map id' (table st)) \<longrightarrow> distinct (map id' (table st'))"
    unfolding tbl by (simp add: saveBook_distinct)
  have bks: "getAllBooksOk env \<longrightarrow> books st' = table st'"
    using assms by (simp add: upload_table upload_books)
  show ?thesis
    by (rule exI [of _ ?b]) (intro conjI shape picked fresh only fields ext nodot dist bks)
qed

theorem upload_creates_book_witness:
  "(\<exists>b. table (handleFileUpload failingEnrichment (Some cleanCodePdf) (initialApp [dune]))
          = [dune, b]
      \<and> id' b = ''3f2c-uuid'' \<and> lastPage b = Some 1 \<and> isMarked b = Some False
      \<and> addedAt b = 1700000000123 \<and> fileName b = ''Clean Code.pdf'' \<and> title b = ''Clean Code'')
   \<and> (\<exists>b. table (handleFileUpload withoutRandomUUID (Some cleanCodePdf) (initialApp [dune]))
          = [dune, b]
      \<and> id' b = ''k3j9xloyw3v28'')"
proof
  have pdf: "type' cleanCodePdf = ''application/pdf''"
    and ok: "saveBookOk failingEnrichment" "saveBookOk withoutRandomUUID"
    by (simp_all add: cleanCodePdf_def failingEnrichment_def withoutRandomUUID_def)
  have nm: "name cleanCodePdf = ''Clean Code'' @ ''.'' @ ''pdf'' \<and> ''pdf'' \<noteq> [] \<and>
      CHR ''.'' \<notin> set ''pdf'' \<and> CHR ''/'' \<notin> set ''pdf''"
    by (simp add: cleanCodePdf_def)
  have old: "table (initialApp [dune]) = [dune]" "id' dune = ''b2''"
    by (simp_all add: initialApp_def dune_def)
  have digits: "toString36 1700000000000 = ''loyw3v28''"
    by (simp add: toString36.simps [of 1700000000000] toString36.simps [of 47222222222]
        toString36.simps [of 1311728395] toString36.simps [of 36436899]
        toString36.simps [of 1012136] toString36.simps [of 28114] toString36.simps [of 780]
        toString36.simps [of 21])
  have env1: "randomUUID failingEnrichment = Some ''3f2c-uuid''"
    "dateNowAdded failingEnrichment = 1700000000123" "name cleanCodePdf = ''Clean Code.pdf''"
    by (simp_all add: failingEnrichment_def cleanCodePdf_def)
  have env2: "randomUUID withoutRandomUUID = None" "mathRandom36 withoutRandomUUID = ''k3j9x''"
    "dateNowId withoutRandomUUID = 1700000000000"
    by (simp_all add: failingEnrichment_def withoutRandomUUID_def)
  from upload_creates_book [OF pdf ok(1) refl, of "initialApp [dune]"]
  show "\<exists>b. table (handleFileUpload failingEnrichment (Some cleanCodePdf) (initialApp [dune]))
          = [dune, b]
      \<and> id' b = ''3f2c-uuid'' \<and> lastPage b = Some 1 \<and> isMarked b = Some False
      \<and> addedAt b = 1700000000123 \<and> fileName b = ''Clean Code.pdf'' \<and> title b = ''Clean Code''"
  proof (elim exE conjE)
    fix b
    assume picked: "id' b = (case randomUUID failingEnrichment of
                  Some uuid \<Rightarrow> uuid
                | None \<Rightarrow> mathRandom36 failingEnrichment @ toString36 (dateNowId failingEnrichment))"
      and fresh: "id' b \<notin> set (map id' (table (initialApp [dune]))) \<longrightarrow>
         table (handleFileUpload failingEnrichment (Some cleanCodePdf) (initialApp [dune]))
           = table (initialApp [dune]) @ [b]"
      and fields: "lastPage b = Some 1" "isMarked b = Some False"
        "addedAt b = dateNowAdded failingEnrichment" "fileName b = name cleanCodePdf"
      and ext: "\<forall>stem ext. name cleanCodePdf = stem @ ''.'' @ ext \<and> ext \<noteq> [] \<and>
         CHR ''.'' \<notin> set ext \<and> CHR ''/'' \<notin> set ext \<longrightarrow> title b = stem"
    from picked env1 have i: "id' b = ''3f2c-uuid''"
      by simp
    with fresh old
    have t: "table (handleFileUpload failingEnrichment (Some cleanCodePdf) (initialApp [dune]))
        = [dune, b]"
      by simp
    from ext have "name cleanCodePdf = ''Clean Code'' @ ''.'' @ ''pdf'' \<and> ''pdf'' \<noteq> [] \<and>
        CHR ''.'' \<notin> set ''pdf'' \<and> CHR ''/'' \<notin> set ''pdf'' \<longrightarrow> title b = ''Clean Code''"
      by (rule allE [of _ "''Clean Code''"]) (erule allE [of _ "''pdf''"])
    with nm have n: "title b = ''Clean Code''"
      by (rule rev_mp)
    from fields env1 have f: "lastPage b = Some 1" "isMarked b = Some False"
      "addedAt b = 1700000000123" "fileName b = ''Clean Code.pdf''"
      by simp_all
    show ?thesis
      by (rule exI [of _ b]) (intro conjI t i f n)
  qed
  from upload_creates_book [OF pdf ok(2) refl, of "initialApp [dune]"]
  show "\<exists>b. table (handleFileUpload withoutRandomUUID (Some cleanCodePdf) (initialApp [dune]))
          = [dune, b]
      \<and> id' b = ''k3j9xloyw3v28''"
  proof (elim exE conjE)
    fix b
    assume picked: "id' b = (case randomUUID withoutRandomUUID of
                  Some uuid \<Rightarrow> uuid
                | None \<Rightarrow> mathRandom36 withoutRandomUUID @ toString36 (dateNowId withoutRandomUUID))"
      and fresh: "id' b \<notin> set (map id' (table (initialApp [dune]))) \<longrightarrow>
         table (handleFileUpload withoutRandomUUID (Some cleanCodePdf) (initialApp [dune]))
           = table (initialApp [dune]) @ [b]"
    from picked env2 digits have i: "id' b = ''k3j9xloyw3v28''"
      by simp
    with fresh old
    have t: "table (handleFileUpload withoutRandomUUID (Some cleanCodePdf) (initialApp [dune]))
        = [dune, b]"
      by simp
    show ?thesis
      by (rule exI [of _ b]) (intro conjI t i)
  qed
qed

text \<open>
  C5. For every file whose MIME type is not \<^verbatim>\<open>application/pdf\<close>, the upload ends with the
  alert and nothing else: no service is called, and the table and the list of books are
  unchanged.
\<close>

theorem upload_rejects_non_pdf:
  assumes "type' file \<noteq> ''application/pdf''"
    and "st' = handleFileUpload env (Some file) st"
  shows "st' = st\<lparr>effects := effects st @ [AlertInvalidPdf]\<rparr>
       \<and> isAlert AlertInvalidPdf
       \<and> table st' = table st
       \<and> books st' = books st
       \<and> filter isCall (effects st') = filter isCall (effects st)"
  using assms by (simp add: handleFileUpload_def emit_def)

theorem upload_rejects_non_pdf_witness:
  "table (handleFileUpload failingEnrichment (Some notesTxt) (initialApp [dune])) = [dune]
   \<and> effects (handleFileUpload failingEnrichment (Some notesTxt) (initialApp [dune]))
       = [AlertInvalidPdf]"
proof -
  have "type' notesTxt \<noteq> ''application/pdf''"
    by (simp add: notesTxt_def)
  from upload_rejects_non_pdf [OF this refl, of failingEnrichment "initialApp [dune]"]
  show ?thesis
    by (simp add: initialApp_def)
qed

text \<open>
  C6. For every upload of a PDF, whatever the thumbnail, text-extraction and summary
  services do, the upload goes on to the store write. When the store accepts it, the
  record is in the table, no alert is raised, a failed thumbnail leaves \<open>thumbnail\<close> absent
  (the card shows the placeholder), a failed extraction or summary leaves \<open>summary\<close>
  absent; after the reload the record is among the books, it is listed whenever its title
  matches the query and the marked-only toggle is off, and clicking its card opens the
  reader on it.
\<close>

theorem upload_survives_enrichment_failure:
  assumes "type' file = ''application/pdf''"
    and "st' = handleFileUpload env (Some file) st"
  shows "CallSaveBook \<in> set (effects st')
       \<and> (saveBookOk env \<longrightarrow>
            (\<exists>b. b \<in> set (table st') \<and> id' b = newId env
               \<and> filter isAlert (effects st') = filter isAlert (effects st)
               \<and> (isl (generateThumbnail env file) \<longrightarrow>
                    thumbnail b = None \<and> cardCover (BookCard b) = NoPreview)
               \<and> (isl (extractTextForSummary env file) \<or>
                  (\<exists>txt. extractTextForSummary env file = Inr txt \<and> isl (getBookSummary env txt)) \<longrightarrow>
                    summary b = None \<and> cardInsight (BookCard b) = None)
               \<and> (getAllBooksOk env \<longrightarrow>
                    b \<in> set (books st') \<and>
                    (\<forall>query onlyMarked. b \<in> set (filteredBooks (books st') query onlyMarked)
                        \<longleftrightarrow> matchesSearch query b \<and> \<not> onlyMarked) \<and>
                    (searchQuery st = [] \<and> \<not> showOnlyMarked st \<longrightarrow>
                      (\<exists>cards. libraryMain st' = Grid cards \<and> BookCard b \<in> set cards)))
               \<and> readerShown (cardClick b st') = Some b))"
proof (intro conjI impI)
  show "CallSaveBook \<in> set (effects st')"
    using assms by (simp add: upload_attempts_save)
next
  assume ok: "saveBookOk env"
  let ?b = "uploaded env file st"
  have tbl: "table st' = saveBook ?b (table st)"
    using assms ok by (simp add: upload_table)
  have mem: "?b \<in> set (table st')"
    unfolding tbl by (rule saveBook_member)
  have ident: "id' ?b = newId env" and unmarked: "isMarked ?b = Some False"
    by (simp_all add: uploaded_def newBook_def)
  have alerts: "filter isAlert (effects st') = filter isAlert (effects st)"
    using assms ok by (simp add: upload_alerts)
  have thumb: "isl (generateThumbnail env file) \<longrightarrow>
      thumbnail ?b = None \<and> cardCover (BookCard ?b) = NoPreview"
    by (auto simp: uploaded_def newBook_def tryThumbnail_fst BookCard_def isl_def)
  have summ: "isl (extractTextForSummary env file) \<or>
      (\<exists>txt. extractTextForSummary env file = Inr txt \<and> isl (getBookSummary env txt)) \<longrightarrow>
      summary ?b = None \<and> cardInsight (BookCard ?b) = None"
    by (auto simp: uploaded_def newBook_def trySummary_fst BookCard_def truthyString_def isl_def
        split: sum.splits)
  have listed: "getAllBooksOk env \<longrightarrow>
      ?b \<in> set (books st') \<and>
      (\<forall>query onlyMarked. ?b \<in> set (filteredBooks (books st') query onlyMarked)
          \<longleftrightarrow> matchesSearch query ?b \<and> \<not> onlyMarked) \<and>
      (searchQuery st = [] \<and> \<not> showOnlyMarked st \<longrightarrow>
        (\<exists>cards. libraryMain st' = Grid cards \<and> BookCard ?b \<in> set cards))"
  proof (intro impI conjI allI)
    assume load: "getAllBooksOk env"
    have bks: "books st' = table st'"
      using assms ok load by (simp add: upload_table upload_books)
    with mem show inb: "?b \<in> set (books st')"
      by simp
    show "?b \<in> set (filteredBooks (books st') query onlyMarked)
          \<longleftrightarrow> matchesSearch query ?b \<and> \<not> onlyMarked" for query onlyMarked
      using inb unmarked by (auto simp: filteredBooks_def matchesMarked_def truthyFlag_def)
    assume dflt: "searchQuery st = [] \<and> \<not> showOnlyMarked st"
    have "matchesSearch [] ?b"
      by (cases "toLowerCase (title ?b)")
        (simp_all add: matchesSearch_def includesLowered_def toLowerCase_def)
    with inb unmarked have "?b \<in> set (filteredBooks (books st') [] False)"
      by (simp add: filteredBooks_def matchesMarked_def)
    moreover have "books st' \<noteq> []"
      using inb by auto
    ultimately show "\<exists>cards. libraryMain st' = Grid cards \<and> BookCard ?b \<in> set cards"
      using assms dflt by (auto simp: libraryMain_def upload_frame)
  qed
  have opened: "readerShown (cardClick ?b st') = Some ?b"
    by (simp add: readerShown_def cardClick_def)
  from mem ident alerts thumb summ listed opened
  show "\<exists>b. b \<in> set (table st') \<and> id' b = newId env
               \<and> filter isAlert (effects st') = filter isAlert (effects st)
               \<and> (isl (generateThumbnail env file) \<longrightarrow>
                    thumbnail b = None \<and> cardCover (BookCard b) = NoPreview)
               \<and> (isl (extractTextForSummary env file) \<or>
                  (\<exists>txt. extractTextForSummary env file = Inr txt \<and> isl (getBookSummary env txt)) \<longrightarrow>
                    summary b = None \<and> cardInsight (BookCard b) = None)
               \<and> (getAllBooksOk env \<longrightarrow>
                    b \<in> set (books st') \<and>
                    (\<forall>query onlyMarked. b \<in> set (filteredBooks (books st') query onlyMarked)
                        \<longleftrightarrow> matchesSearch query b \<and> \<not> onlyMarked) \<and>
                    (searchQuery st = [] \<and> \<not> showOnlyMarked st \<longrightarrow>
                      (\<exists>cards. libraryMain st' = Grid cards \<and> BookCard b \<in> set cards)))
               \<and> readerShown (cardClick b st') = Some b"
    by blast
qed

theorem upload_survives_enrichment_failure_witness:
  "\<exists>b. b \<in> set (table (handleFileUpload failingEnrichment (Some cleanCodePdf) (initialApp [dune])))
      \<and> thumbnail b = None \<and> summary b = None
      \<and> cardCover (BookCard b) = NoPreview
      \<and> b \<in> set (books (handleFileUpload failingEnrichment (Some cleanCodePdf) (initialApp [dune])))
      \<and> (\<exists>cards. libraryMain (handleFileUpload failingEnrichment (Some cleanCodePdf)
                      (initialApp [dune])) = Grid cards \<and> BookCard b \<in> set cards)"
proof -
  have pdf: "type' cleanCodePdf = ''application/pdf''"
    by (simp add: cleanCodePdf_def)
  have env: "saveBookOk failingEnrichment" "getAllBooksOk failingEnrichment"
    "isl (generateThumbnail failingEnrichment cleanCodePdf)"
    "isl (extractTextForSummary failingEnrichment cleanCodePdf)"
    by (simp_all add: failingEnrichment_def)
  have dflt: "searchQuery (initialApp [dune]) = [] \<and> \<not> showOnlyMarked (initialApp [dune])"
    by (simp add: initialApp_def)
  from upload_survives_enrichment_failure [OF pdf refl, of failingEnrichment "initialApp [dune]"]
    env dflt
  show ?thesis
    by blast
qed

subsection \<open>The reader\<close>

lemma pageElement_iff:
  "pageElement st n \<longleftrightarrow> \<not> loading st \<and> pdfDoc st \<noteq> None \<and> 1 \<le> n \<and> n \<le> numPages st"
  by (cases "pdfDoc st") (auto simp: pageElement_def pageNumbers_def)

lemma observed_scale [simp]: "scale (observed n entries st) = scale st"
  unfolding observed_def
  by (induction entries arbitrary: st) (simp_all add: handlePageVisible_def)

lemma observed_currentPage:
  "currentPage (observed n entries st) = (if True \<in> set entries then n else currentPage st)"
  unfolding observed_def
proof (induction entries rule: rev_induct)
  case Nil
  show ?case by simp
next
  case (snoc e entries)
  then show ?case by (auto simp: handlePageVisible_def)
qed

lemma observed_book [simp]: "book (observed n entries st) = book st"
  unfolding observed_def
  by (induction entries rule: rev_induct) (simp_all add: handlePageVisible_def)

lemma observed_writes:
  "lastPageWrites (observed n entries st) =
     lastPageWrites st @ map (\<lambda>e. (id' (book st), n)) (filter (\<lambda>e. e) entries)"
  unfolding observed_def
proof (induction entries rule: rev_induct)
  case Nil
  show ?case by simp
next
  case (snoc e entries)
  have "book (foldl (\<lambda>s isIntersecting. if isIntersecting then handlePageVisible n s else s) st entries) = book st"
    using observed_book [of n entries st] by (simp add: observed_def)
  with snoc show ?case by (simp add: handlePageVisible_def)
qed

lemma step_scale_bounds:
  assumes fl: "rounding fl" and lo: "fl 0.4 \<le> scale st" and hi: "scale st \<le> fl 3.0"
  shows "fl 0.4 \<le> scale (readerStep fl st ev) \<and> scale (readerStep fl st ev) \<le> fl 3.0"
proof -
  from fl have mono: "\<And>x y. x \<le> y \<Longrightarrow> fl x \<le> fl y" and idem: "\<And>x. fl (fl x) = fl x"
    and zero: "fl 0 = 0"
    by (auto simp: rounding_def mono_def)
  have step: "0 \<le> fl 0.2"
    using mono [of 0 "0.2"] zero by simp
  have lohi: "fl 0.4 \<le> fl 3.0" "fl 0.4 \<le> fl 1.0" "fl 1.0 \<le> fl 3.0"
    by (rule mono, simp)+
  have up: "fl 0.4 \<le> fl (scale st + fl 0.2)"
    using mono [of "fl 0.4" "scale st + fl 0.2"] idem [of "0.4"] lo step by simp
  have down: "fl (scale st - fl 0.2) \<le> fl 3.0"
    using mono [of "scale st - fl 0.2" "fl 3.0"] idem [of "3.0"] hi step by simp
  show ?thesis
  proof (cases ev)
    case ClickZoomIn
    with up lohi show ?thesis by (simp add: zoomIn_def)
  next
    case ClickZoomOut
    with down lohi show ?thesis by (simp add: zoomOut_def)
  next
    case ClickResetZoom
    with lohi show ?thesis by (simp add: resetZoom_def)
  qed (use lo hi in \<open>simp_all add: loadPdf_def initialScroll_def toggleControls_def
        clickPrev_def clickNext_def scrollToPage_def split: sum.splits\<close>)
qed

lemma run_scale_bounds:
  assumes "rounding fl" and "fl 0.4 \<le> scale st" and "scale st \<le> fl 3.0"
  shows "fl 0.4 \<le> scale (readerRun fl st evs) \<and> scale (readerRun fl st evs) \<le> fl 3.0"
  using assms(2,3) unfolding readerRun_def
proof (induction evs arbitrary: st)
  case Nil
  then show ?case by simp
next
  case (Cons ev evs)
  from step_scale_bounds [OF assms(1) Cons.prems, of ev] Cons.IH [of "readerStep fl st ev"]
  show ?case by simp
qed

text \<open>
  C4. The scale is one field of the reader's state and every mounted page receives that
  value. It starts at 1.0, and after every sequence of events of the reader (zoom-in,
  zoom-out, reset-zoom and all the others) it lies between 0.4 and 3.0. Zoom-in adds 0.2
  and yields 3.0 when the sum exceeds 3.0; zoom-out subtracts 0.2 and yields 0.4 when the
  difference is below 0.4; reset-zoom yields 1.0. The numbers are those of the rounding
  \<open>fl\<close>; with \<^const>\<open>exact\<close> they are the reals themselves.
\<close>

theorem zoom_within_bounds:
  assumes "rounding fl"
  shows "scale (openReader fl b) = fl 1.0
       \<and> fl 0.4 \<le> scale (readerRun fl (openReader fl b) evs)
       \<and> scale (readerRun fl (openReader fl b) evs) \<le> fl 3.0
       \<and> scale (zoomIn fl st) =
           (if fl 3.0 < fl (scale st + fl 0.2) then fl 3.0 else fl (scale st + fl 0.2))
       \<and> scale (zoomOut fl st) =
           (if fl (scale st - fl 0.2) < fl 0.4 then fl 0.4 else fl (scale st - fl 0.2))
       \<and> scale (resetZoom fl st) = fl 1.0
       \<and> list_all (\<lambda>p. pageScale p = scale st) (pages st)"
proof -
  from assms have mono: "\<And>x y. x \<le> y \<Longrightarrow> fl x \<le> fl y"
    by (auto simp: rounding_def mono_def)
  have init: "scale (openReader fl b) = fl 1.0"
    by (simp add: openReader_def)
  have "fl 0.4 \<le> fl 1.0" "fl 1.0 \<le> fl 3.0"
    by (rule mono, simp)+
  with init have "fl 0.4 \<le> scale (openReader fl b)" "scale (openReader fl b) \<le> fl 3.0"
    by simp_all
  from run_scale_bounds [OF assms this]
  have run: "fl 0.4 \<le> scale (readerRun fl (openReader fl b) evs)"
    "scale (readerRun fl (openReader fl b) evs) \<le> fl 3.0"
    by simp_all
  have ops: "scale (zoomIn fl st) =
           (if fl 3.0 < fl (scale st + fl 0.2) then fl 3.0 else fl (scale st + fl 0.2))"
    "scale (zoomOut fl st) =
           (if fl (scale st - fl 0.2) < fl 0.4 then fl 0.4 else fl (scale st - fl 0.2))"
    "scale (resetZoom fl st) = fl 1.0"
    by (simp_all add: zoomIn_def zoomOut_def resetZoom_def min_def max_def)
  have shared: "list_all (\<lambda>p. pageScale p = scale st) (pages st)"
    by (simp add: pages_def list_all_iff)
  from init run ops shared show ?thesis by blast
qed

theorem zoom_within_bounds_witness:
  "scale (readerRun exact (openReader exact cleanCode)
       [ClickZoomIn, ClickZoomIn, ClickZoomIn, ClickZoomIn, ClickZoomIn, ClickZoomIn,
        ClickZoomIn, ClickZoomIn, ClickZoomIn, ClickZoomIn, ClickZoomIn, ClickZoomIn]) = 3
   \<and> scale (readerRun exact (openReader exact cleanCode)
       [ClickZoomOut, ClickZoomOut, ClickZoomOut, ClickZoomOut]) = 0.4
   \<and> 0.4 \<le> scale (readerRun exact (openReader exact cleanCode)
       [ClickZoomOut, ClickZoomOut, ClickZoomOut, ClickZoomOut, ClickZoomIn])
   \<and> scale (readerRun exact (openReader exact cleanCode)
       [ClickZoomOut, ClickZoomOut, ClickZoomOut, ClickZoomOut, ClickZoomIn]) \<le> 3"
proof -
  have r: "rounding exact"
    by (simp add: rounding_def exact_def mono_def)
  have a: "scale (readerRun exact (openReader exact cleanCode)
       [ClickZoomIn, ClickZoomIn, ClickZoomIn, ClickZoomIn, ClickZoomIn, ClickZoomIn,
        ClickZoomIn, ClickZoomIn, ClickZoomIn, ClickZoomIn, ClickZoomIn, ClickZoomIn]) = 3"
    by (simp add: readerRun_def openReader_def zoomIn_def exact_def)
  have b: "scale (readerRun exact (openReader exact cleanCode)
       [ClickZoomOut, ClickZoomOut, ClickZoomOut, ClickZoomOut]) = 0.4"
    by (simp add: readerRun_def openReader_def zoomOut_def exact_def)
  from zoom_within_bounds [OF r, of cleanCode
      "[ClickZoomOut, ClickZoomOut, ClickZoomOut, ClickZoomOut, ClickZoomIn]"]
  have "exact 0.4 \<le> scale (readerRun exact (openReader exact cleanCode)
       [ClickZoomOut, ClickZoomOut, ClickZoomOut, ClickZoomOut, ClickZoomIn])"
    "scale (readerRun exact (openReader exact cleanCode)
       [ClickZoomOut, ClickZoomOut, ClickZoomOut, ClickZoomOut, ClickZoomIn]) \<le> exact 3.0"
    by blast+
  with a b show ?thesis
    by (simp add: exact_def)
qed

text \<open>
  C7. For a document with at least one page and every requested index, the index that
  \<^verbatim>\<open>scrollToPage\<close> scrolls to is the request clamped to the range from 1 to \<open>numPages\<close>
  (the scroll happens once the document is loaded). The previous-page button is disabled
  on page 1 and the next-page button on the last page, where a click leaves the state as
  it is; no navigation changes the current page by itself.
\<close>

theorem navigation_clamped:
  assumes "1 \<le> numPages st"
  shows "scrollTarget n st = (if n < 1 then 1 else if numPages st < n then numPages st else n)
       \<and> 1 \<le> scrollTarget n st \<and> scrollTarget n st \<le> numPages st
       \<and> scrolled (scrollToPage n st) =
           (if loading st \<or> pdfDoc st = None then scrolled st
            else scrolled st @ [scrollTarget n st])
       \<and> currentPage (scrollToPage n st) = currentPage st
       \<and> (currentPage st = 1 \<longrightarrow> prevDisabled st \<and> clickPrev st = st)
       \<and> (currentPage st = numPages st \<longrightarrow> nextDisabled st \<and> clickNext st = st)
       \<and> currentPage (clickPrev st) = currentPage st
       \<and> currentPage (clickNext st) = currentPage st"
proof -
  have tgt: "scrollTarget n st = (if n < 1 then 1 else if numPages st < n then numPages st else n)"
    using assms by (simp add: scrollTarget_def)
  have rng: "1 \<le> scrollTarget n st" "scrollTarget n st \<le> numPages st"
    using assms by (simp_all add: scrollTarget_def)
  have scr: "scrolled (scrollToPage n st) =
           (if loading st \<or> pdfDoc st = None then scrolled st
            else scrolled st @ [scrollTarget n st])"
    using rng by (simp add: scrollToPage_def pageElement_iff)
  have cur: "currentPage (scrollToPage m st) = currentPage st" for m
    by (simp add: scrollToPage_def)
  have btn: "currentPage st = 1 \<longrightarrow> prevDisabled st \<and> clickPrev st = st"
    "currentPage st = numPages st \<longrightarrow> nextDisabled st \<and> clickNext st = st"
    by (simp_all add: prevDisabled_def nextDisabled_def clickPrev_def clickNext_def)
  have clk: "currentPage (clickPrev st) = currentPage st"
    "currentPage (clickNext st) = currentPage st"
    by (simp_all add: clickPrev_def clickNext_def cur)
  from tgt rng scr cur [of n] btn clk show ?thesis
    by blast
qed

theorem navigation_clamped_witness:
  "scrollTarget 9 (loadPdf (Inr 5) (openReader exact cleanCode)) = 5
   \<and> scrollTarget (- 2) (loadPdf (Inr 5) (openReader exact cleanCode)) = 1
   \<and> scrolled (scrollToPage 9 (loadPdf (Inr 5) (openReader exact cleanCode))) = [5]
   \<and> clickPrev (loadPdf (Inr 5) (openReader exact cleanCode))
       = loadPdf (Inr 5) (openReader exact cleanCode)"
proof -
  let ?st = "loadPdf (Inr 5) (openReader exact cleanCode)"
  have n: "1 \<le> numPages ?st" and c: "currentPage ?st = 1"
    and l: "\<not> loading ?st" "pdfDoc ?st \<noteq> None" "scrolled ?st = []" "numPages ?st = 5"
    by (simp_all add: loadPdf_def openReader_def lastPageOr1_def cleanCode_def)
  from navigation_clamped [OF n, of 9] l
  have a: "scrollTarget 9 ?st = 5" "scrolled (scrollToPage 9 ?st) = [5]"
    by simp_all
  from navigation_clamped [OF n, of "- 2"]
  have b: "scrollTarget (- 2) ?st = 1"
    by simp
  from navigation_clamped [OF n, of 0] c
  have d: "clickPrev ?st = ?st"
    by blast
  from a b d show ?thesis
    by simp
qed

lemma updateLastPage_field:
  "map lastPage (filter (\<lambda>b. id' b = bookId) (updateLastPage bookId n tbl)) =
     map (\<lambda>b. Some n) (filter (\<lambda>b. id' b = bookId) tbl)"
  by (induction tbl) (simp_all add: updateLastPage_def)

lemma updateLastPage_others:
  "filter (\<lambda>b. id' b \<noteq> bookId) (updateLastPage bookId n tbl) = filter (\<lambda>b. id' b \<noteq> bookId) tbl"
  by (induction tbl) (simp_all add: updateLastPage_def)

text \<open>
  C8. Each visibility report sets the current page to the reported page and issues one
  write of that page for the book's identifier, in the handler itself: a callback with
  several intersecting entries issues one write per entry, in order. A write that
  succeeds sets \<open>lastPage\<close> of the book's record; one that fails leaves the table as it was,
  and the reader's state after it is the same as after a success.
\<close>

theorem page_visible_persisted:
  "handlePageVisible n st =
       st\<lparr>currentPage := n, lastPageWrites := lastPageWrites st @ [(id' (book st), n)]\<rparr>
   \<and> currentPage (observed n entries st) = (if True \<in> set entries then n else currentPage st)
   \<and> lastPageWrites (observed n entries st) =
       lastPageWrites st @ map (\<lambda>e. (id' (book st), n)) (filter (\<lambda>e. e) entries)
   \<and> (lastPageWrites st = [] \<longrightarrow>
        snd (settleWrite True (handlePageVisible n st, tbl)) = updateLastPage (id' (book st)) n tbl
        \<and> map lastPage (filter (\<lambda>b. id' b = id' (book st))
              (snd (settleWrite True (handlePageVisible n st, tbl))))
            = map (\<lambda>b. Some n) (filter (\<lambda>b. id' b = id' (book st)) tbl))
   \<and> snd (settleWrite False (st, tbl)) = tbl
   \<and> fst (settleWrite False (st, tbl)) = fst (settleWrite True (st, tbl))
   \<and> fst (settleWrite False (st, tbl)) = st\<lparr>lastPageWrites := tl (lastPageWrites st)\<rparr>"
proof -
  have h: "handlePageVisible n st =
       st\<lparr>currentPage := n, lastPageWrites := lastPageWrites st @ [(id' (book st), n)]\<rparr>"
    by (simp add: handlePageVisible_def)
  have ok: "lastPageWrites st = [] \<longrightarrow>
        snd (settleWrite True (handlePageVisible n st, tbl)) = updateLastPage (id' (book st)) n tbl
        \<and> map lastPage (filter (\<lambda>b. id' b = id' (book st))
              (snd (settleWrite True (handlePageVisible n st, tbl))))
            = map (\<lambda>b. Some n) (filter (\<lambda>b. id' b = id' (book st)) tbl)"
    by (simp add: settleWrite_def handlePageVisible_def updateLastPage_field)
  have failed: "snd (settleWrite False (st, tbl)) = tbl"
    "fst (settleWrite False (st, tbl)) = fst (settleWrite True (st, tbl))"
    "fst (settleWrite False (st, tbl)) = st\<lparr>lastPageWrites := tl (lastPageWrites st)\<rparr>"
    by (simp_all add: settleWrite_def split: list.splits)
  from h ok failed observed_currentPage [of n entries st] observed_writes [of n entries st]
  show ?thesis
    by blast
qed

theorem page_visible_persisted_witness:
  "lastPageWrites (observed 3 [True, False, True] (loadPdf (Inr 5) (openReader exact dune)))
       = [(''b2'', 3), (''b2'', 3)]
   \<and> currentPage (observed 3 [True, False, True] (loadPdf (Inr 5) (openReader exact dune))) = 3
   \<and> map lastPage (snd (settleWrite True
        (handlePageVisible 3 (loadPdf (Inr 5) (openReader exact dune)), [dune, cleanCode])))
       = [Some 3, Some 1]"
proof -
  let ?st = "loadPdf (Inr 5) (openReader exact dune)"
  have st: "lastPageWrites ?st = []" "id' (book ?st) = ''b2''"
    by (simp_all add: loadPdf_def openReader_def dune_def)
  have upd: "map lastPage (updateLastPage ''b2'' 3 [dune, cleanCode]) = [Some 3, Some 1]"
    by (simp add: updateLastPage_def dune_def cleanCode_def)
  note spec = page_visible_persisted [of 3 ?st "[True, False, True]" "[dune, cleanCode]"]
  from spec have cur: "currentPage (observed 3 [True, False, True] ?st)
        = (if True \<in> set [True, False, True] then 3 else currentPage ?st)"
    and wr: "lastPageWrites (observed 3 [True, False, True] ?st) =
        lastPageWrites ?st @ map (\<lambda>e. (id' (book ?st), 3)) (filter (\<lambda>e. e) [True, False, True])"
    and tb: "lastPageWrites ?st = [] \<longrightarrow>
        snd (settleWrite True (handlePageVisible 3 ?st, [dune, cleanCode]))
          = updateLastPage (id' (book ?st)) 3 [dune, cleanCode]"
    by blast+
  from tb st have "snd (settleWrite True (handlePageVisible 3 ?st, [dune, cleanCode]))
          = updateLastPage ''b2'' 3 [dune, cleanCode]"
    by simp
  with upd cur wr st show ?thesis
    by simp
qed

lemma observed_showControls [simp]: "showControls (observed n entries st) = showControls st"
  unfolding observed_def
  by (induction entries arbitrary: st) (simp_all add: handlePageVisible_def)

theorem controls_toggle_counterexample:
  "\<not> ((showControls (readerStep exact (openReader exact cleanCode) (ClickSurface (InsidePage 1)))
          \<noteq> showControls (openReader exact cleanCode))
       = (ClickSurface (InsidePage 1) = ClickSurface ScrollContainer))"
  by (simp add: toggleControls_def targetIsCurrentTarget_def closestPageContainer_def)

text \<open>
  C9, as the code has it. An event of the reader changes \<open>showControls\<close> exactly when it
  is a click on the scroll container itself or on an element inside a page container
  (:149); clicks on the controls, on the loading indicator or on the column around the
  pages leave it. Toggling changes no other field: the current page, the scale, the
  document and the page count stay.
\<close>

theorem controls_toggle_amended:
  "(showControls (readerStep fl st ev) \<noteq> showControls st)
     = (ev = ClickSurface ScrollContainer \<or> (\<exists>n. ev = ClickSurface (InsidePage n)))
   \<and> toggleControls t st = st\<lparr>showControls := showControls (toggleControls t st)\<rparr>
   \<and> currentPage (toggleControls t st) = currentPage st
   \<and> scale (toggleControls t st) = scale st
   \<and> pdfDoc (toggleControls t st) = pdfDoc st
   \<and> numPages (toggleControls t st) = numPages st"
proof -
  have "(showControls (readerStep fl st ev) \<noteq> showControls st)
     = (ev = ClickSurface ScrollContainer \<or> (\<exists>n. ev = ClickSurface (InsidePage n)))"
  proof (cases ev)
    case (ClickSurface t)
    then show ?thesis
      by (cases t) (simp_all add: toggleControls_def targetIsCurrentTarget_def
          closestPageContainer_def)
  qed (simp_all add: loadPdf_def initialScroll_def zoomIn_def zoomOut_def resetZoom_def
        clickPrev_def clickNext_def scrollToPage_def split: sum.splits)
  moreover have "toggleControls t st = st\<lparr>showControls := showControls (toggleControls t st)\<rparr>"
    "currentPage (toggleControls t st) = currentPage st"
    "scale (toggleControls t st) = scale st"
    "pdfDoc (toggleControls t st) = pdfDoc st"
    "numPages (toggleControls t st) = numPages st"
    by (simp_all add: toggleControls_def)
  ultimately show ?thesis
    by blast
qed

theorem controls_toggle_amended_witness:
  "showControls (readerStep exact (openReader exact cleanCode) (ClickSurface ScrollContainer)) = False
   \<and> showControls (readerStep exact (openReader exact cleanCode) (ClickSurface PagesColumn)) = True
   \<and> showControls (readerStep exact (openReader exact cleanCode) ClickZoomIn) = True"
proof -
  have s: "showControls (openReader exact cleanCode) = True"
    by (simp add: openReader_def)
  from controls_toggle_amended [of exact "openReader exact cleanCode" "ClickSurface ScrollContainer"]
    controls_toggle_amended [of exact "openReader exact cleanCode" "ClickSurface PagesColumn"]
    controls_toggle_amended [of exact "openReader exact cleanCode" ClickZoomIn] s
  show ?thesis
    by simp
qed

lemma openReader_nonzero:
  "lastPage b = Some n \<Longrightarrow> n \<noteq> 0 \<Longrightarrow> currentPage (openReader fl b) = n"
  by (simp add: openReader_def lastPageOr1_def)

lemma step_currentPage:
  assumes "1 \<le> currentPage st"
  shows "1 \<le> currentPage (readerStep fl st ev)"
proof (cases ev)
  case (Observed n entries)
  with assms show ?thesis
    by (simp add: observed_currentPage pageElement_iff)
qed (use assms in \<open>simp_all add: loadPdf_def initialScroll_def toggleControls_def zoomIn_def
      zoomOut_def resetZoom_def clickPrev_def clickNext_def scrollToPage_def split: sum.splits\<close>)

lemma run_currentPage:
  "1 \<le> currentPage st \<Longrightarrow> 1 \<le> currentPage (readerRun fl st evs)"
  unfolding readerRun_def
  by (induction evs arbitrary: st) (simp_all add: step_currentPage)

text \<open>
  C10. When the book's \<open>lastPage\<close> is absent or 0, the reader opens with current page 1,
  the initial scroll (once the document with at least one page is loaded) goes to page 1,
  and the current page is at least 1 after every sequence of events of the reader.
\<close>

theorem reader_opens_at_page_one:
  assumes "lastPage b = None \<or> lastPage b = Some 0"
  shows "currentPage (openReader fl b) = 1
       \<and> (book st = b \<longrightarrow>
            scrolled (initialScroll st) =
              (if \<not> loading st \<and> pdfDoc st \<noteq> None \<and> \<not> initialScrollDone st \<and> 1 \<le> numPages st
               then scrolled st @ [1] else scrolled st))
       \<and> 1 \<le> currentPage (readerRun fl (openReader fl b) evs)"
proof -
  from assms have one: "lastPageOr1 b = 1"
    by (auto simp: lastPageOr1_def)
  then have init: "currentPage (openReader fl b) = 1"
    by (simp add: openReader_def)
  have scr: "book st = b \<longrightarrow>
            scrolled (initialScroll st) =
              (if \<not> loading st \<and> pdfDoc st \<noteq> None \<and> \<not> initialScrollDone st \<and> 1 \<le> numPages st
               then scrolled st @ [1] else scrolled st)"
    using one by (auto simp: initialScroll_def pageElement_iff)
  from init have "1 \<le> currentPage (readerRun fl (openReader fl b) evs)"
    by (simp add: run_currentPage)
  with init scr show ?thesis
    by blast
qed

theorem reader_opens_at_page_one_witness:
  "currentPage (openReader exact (dune\<lparr>lastPage := Some 0\<rparr>)) = 1
   \<and> scrolled (initialScroll (loadPdf (Inr 5) (openReader exact (dune\<lparr>lastPage := Some 0\<rparr>)))) = [1]
   \<and> 1 \<le> currentPage (readerRun exact (openReader exact (dune\<lparr>lastPage := Some 0\<rparr>))
            [PdfSettled (Inr 5), InitialScrollEffect, Observed 1 [True], Observed 2 [True], ClickPrev])"
proof -
  let ?b = "dune\<lparr>lastPage := Some 0\<rparr>"
  let ?st = "loadPdf (Inr 5) (openReader exact ?b)"
  have falsy: "lastPage ?b = None \<or> lastPage ?b = Some 0"
    by simp
  have st: "book ?st = ?b" "\<not> loading ?st" "pdfDoc ?st \<noteq> None" "\<not> initialScrollDone ?st"
    "1 \<le> numPages ?st" "scrolled ?st = []"
    by (simp_all add: loadPdf_def openReader_def)
  from reader_opens_at_page_one [OF falsy, of exact ?st
      "[PdfSettled (Inr 5), InitialScrollEffect, Observed 1 [True], Observed 2 [True], ClickPrev]"] st
  show ?thesis
    by simp
qed


subsection \<open>Rendering a page\<close>

lemma serialized_mountedPage: "serialized mountedPage"
  by (simp add: serialized_def mountedPage_def)

lemma serialized_render:
  assumes "serialized pg"
  shows "serialized (resumeRenderPage pageOk contextOk (renderPage s pg))"
proof (cases "renderTaskRef pg")
  case None
  with assms have "drawing pg = []"
    by (cases "drawing pg") (simp_all add: serialized_def)
  with assms None show ?thesis
    by (simp add: serialized_def renderPage_def resumeRenderPage_def Let_def)
next
  case (Some task)
  with assms have "filter (\<lambda>d. fst d \<noteq> task) (drawing pg) = []"
    by (auto simp: serialized_def list_all_iff filter_empty_conv)
  with assms Some show ?thesis
    by (simp add: serialized_def renderPage_def resumeRenderPage_def cancel_def Let_def)
qed

lemma serialized_settled:
  assumes "serialized pg"
  shows "serialized (renderSettled task ok pg)"
proof (cases "map_of (drawing pg) task")
  case None
  with assms show ?thesis
    by (simp add: renderSettled_def)
next
  case (Some s)
  have "length (filter (\<lambda>d. fst d \<noteq> task) (drawing pg)) \<le> length (drawing pg)"
    by simp
  with assms have "length (filter (\<lambda>d. fst d \<noteq> task) (drawing pg)) \<le> 1"
    unfolding serialized_def by linarith
  with assms Some show ?thesis
    by (auto simp: renderSettled_def serialized_def list_all_iff Let_def)
qed

text \<open>
  C2 does not hold of the code. \<^verbatim>\<open>renderPage\<close> cancels the task in the ref (:29-31), but
  it stores its own task only after \<^verbatim>\<open>await pdfDoc.getPage\<close> (:33, :47). When a page is
  asked to render at scale 1.0 and again at 1.2 before the first page request has
  settled, the second call finds nothing to cancel: both tasks draw on the canvas at the
  same time, and when the older one finishes last the canvas sized for 1.2 shows the
  drawing of 1.0. Calls that do not overlap are serialized, as the lemmas above show.
\<close>

theorem renderPage_race:
  "drawing (pageRun mountedPage
      [Intersecting 1.0 [True], Intersecting 1.2 [True],
       PageRequestSettled True True, PageRequestSettled True True]) = [(0, 1.0), (1, 1.2)]
   \<and> painted (pageRun mountedPage
      [Intersecting 1.0 [True], Intersecting 1.2 [True],
       PageRequestSettled True True, PageRequestSettled True True,
       RenderTaskSettled 1 True, RenderTaskSettled 0 True]) = Some 1.0"
  by (simp add: pageRun_def mountedPage_def renderPage_def resumeRenderPage_def
      renderSettled_def cancel_def)

end
